theory Spec2Isabelle
  imports Complex_Main "HOL-Library.AList" "HOL-Library.Log_Nat"
begin

section \<open>Student attendance dashboard: the client of \<open>frontend/src/App.js\<close>\<close>

text \<open>
  The development embeds the session hook \<open>useAuth\<close>, the route guard
  \<open>ProtectedRoute\<close> and the data preparation of the \<open>Dashboard\<close> component
  (\<open>fetchData\<close>, \<open>overallChartData\<close>, \<open>getTrendData\<close> and the rows of the details table).

  Conventions of the embedding:
  \<^item> a JavaScript number is the rational it denotes (\<open>rat\<close>). A division or a
    multiplication of the source is followed by \<open>toDouble\<close>, the rounding of IEEE 754
    double precision (to nearest, ties to even, 53 significant bits). Counters are natural
    numbers: an array has fewer than \<open>2^32\<close> elements, so the counters of the source
    stay among the integers a double represents exactly, and adding 1 never rounds. A
    decimal literal of the source is the double nearest to it (\<open>0.1\<close> is
    \<open>toDouble (1 / 10)\<close>);
  \<^item> the time value of a \<open>Date\<close> is \<open>Some ms\<close> (milliseconds since the epoch) or
    \<open>None\<close> for \<open>NaN\<close>, the time value of an invalid date;
  \<^item> a thrown exception is a value \<open>Inl e\<close> of a sum type;
  \<^item> a state setter of React, a request of axios, a write to \<open>localStorage\<close> and a call of
    \<open>navigate\<close> are effects: a function of the source that performs them returns the list
    of its effects in program order, and \<open>run\<close> replays the state writes on a session.
\<close>

subsection \<open>Data of the API\<close>

text \<open>
  The JSON rows as the source reads them. The field \<open>date\<close> of an attendance record holds
  the time value that \<open>new Date(record.date)\<close> gives for the string on the wire; \<open>None\<close>
  is a string the constructor does not accept.
\<close>

record summary_row =
  summary_subject_id :: string
  subject_name :: string
  subject_code :: string
  total_classes :: nat
  classes_attended :: nat
  attendance_percentage :: rat

record attendance_record =
  record_id :: string
  subject_id :: string
  date :: "int option"
  status :: string

record subject =
  subject_ident :: string
  name :: string

type_synonym user = string

subsection \<open>The platform: \<open>Date\<close>, \<open>Object.keys\<close>, \<open>Array.prototype.sort\<close>\<close>

text \<open>
  \<open>toLocaleDateString()\<close> renders the local calendar day of a date in the default locale,
  or gives the string \<open>Invalid Date\<close>. The day strings are kept abstract: \<open>LocalDay n\<close> is
  the day string with number \<open>n\<close>. The platform is a parameter: \<open>localDay ms\<close> is the
  number of the day string that the time value \<open>ms\<close> is rendered as (time zone, daylight
  saving and locale decide it, and two days may share a string), and \<open>parseLocale n\<close> is
  the time value of \<open>new Date(s)\<close> for \<open>s\<close> the day string with number \<open>n\<close>; what the
  constructor makes of a string that is not in ISO format is left to the implementation
  by ECMAScript.
\<close>

datatype date_string = LocalDay int | InvalidDate

record platform =
  localDay :: "int \<Rightarrow> int"
  parseLocale :: "int \<Rightarrow> int option"

definition msPerDay :: int where
  "msPerDay = 86400000"

definition toLocaleDateString :: "platform \<Rightarrow> int option \<Rightarrow> date_string" where
  "toLocaleDateString P t =
     (case t of None \<Rightarrow> InvalidDate
      | Some ms \<Rightarrow> LocalDay (localDay P ms))"

definition newDate :: "platform \<Rightarrow> date_string \<Rightarrow> int option" where
  "newDate P s = (case s of InvalidDate \<Rightarrow> None | LocalDay d \<Rightarrow> parseLocale P d)"

text \<open>
  The runtime of the examples: locale \<open>en-US\<close> in a zone with the fixed offset \<open>tz\<close>
  (local time minus UTC, in milliseconds). The day string \<open>M/D/YYYY\<close> is numbered by its
  day (days since 1 January 1970, local time) and read back as local midnight of that day.
  A browser does so for the dates of the examples, which lie in 2024; it does not for
  every date (it writes a year below 100 with its last two digits and reads them back as
  a year of the 20th or 21st century). The examples alone use \<open>enUS\<close>; every other
  statement is about an arbitrary platform.
\<close>

definition enUS :: "int \<Rightarrow> platform" where
  "enUS tz =
     \<lparr>localDay = (\<lambda>ms. (ms + tz) div msPerDay),
      parseLocale = (\<lambda>d. Some (d * msPerDay - tz))\<rparr>"

text \<open>
  An object whose keys are date strings is an association list in insertion order
  (no key is an array index, so \<open>Object.keys\<close> lists them as inserted).
\<close>

definition Object_keys :: "('k \<times> 'v) list \<Rightarrow> 'k list" where
  "Object_keys obj = map fst obj"

text \<open>
  \<open>sort(comparefn)\<close>: a comparator result \<open>NaN\<close> counts as \<open>0\<close> (SortCompare), and the
  sort is stable. The model inserts the elements from left to right, each one behind the
  elements it is not smaller than. For a consistent comparator every stable sort returns
  this list. For an inconsistent one, such as a comparator that returns \<open>NaN\<close>,
  ECMAScript leaves the order to the implementation, and an engine may return another
  permutation than the model; the statements below that hold for every input use of the
  sort only that it permutes its argument.
\<close>

definition SortCompare :: "('a \<Rightarrow> 'a \<Rightarrow> int option) \<Rightarrow> 'a \<Rightarrow> 'a \<Rightarrow> int" where
  "SortCompare comparefn x y = (case comparefn x y of None \<Rightarrow> 0 | Some v \<Rightarrow> v)"

fun sort_insert :: "('a \<Rightarrow> 'a \<Rightarrow> int option) \<Rightarrow> 'a \<Rightarrow> 'a list \<Rightarrow> 'a list" where
  "sort_insert comparefn x [] = [x]"
| "sort_insert comparefn x (y # ys) =
     (if SortCompare comparefn x y < 0 then x # y # ys
      else y # sort_insert comparefn x ys)"

definition Array_sort :: "('a \<Rightarrow> 'a \<Rightarrow> int option) \<Rightarrow> 'a list \<Rightarrow> 'a list" where
  "Array_sort comparefn xs = foldl (\<lambda>acc x. sort_insert comparefn x acc) [] xs"

subsection \<open>Numbers\<close>

text \<open>
  \<open>toDouble x\<close> is the double nearest to \<open>x\<close>: with \<open>2^e \<le> |x| < 2^(e+1)\<close> the doubles
  around \<open>x\<close> are the multiples of \<open>2^(e-52)\<close>, and a tie goes to the even multiple. The
  range of the exponent is not modelled (no overflow, no subnormal numbers): the numbers
  rounded here are quotients of two counters and their products with 100.
\<close>

definition roundHalfEven :: "rat \<Rightarrow> int" where
  "roundHalfEven x =
     (let f = \<lfloor>x\<rfloor>; r = x - of_int f
      in if r < 1 / 2 then f
         else if 1 / 2 < r then f + 1
         else if even f then f else f + 1)"

definition exponent :: "rat \<Rightarrow> int" where
  "exponent x =
     (let (a, b) = quotient_of x; k = bitlen a - bitlen b
      in if power_int 2 k \<le> x then k else k - 1)"

definition toDouble :: "rat \<Rightarrow> rat" where
  "toDouble x =
     (if x = 0 then 0
      else let ulp = power_int 2 (exponent \<bar>x\<bar> - 52)
           in sgn x * of_int (roundHalfEven (\<bar>x\<bar> / ulp)) * ulp)"

subsection \<open>Chart data\<close>

datatype colors = Color string | Palette "string list"

record dataset =
  label :: string
  data :: "rat list"
  backgroundColor :: colors
  borderColor :: colors
  borderWidth :: "nat option"
  fill :: "bool option"
  tension :: "rat option"

record 'l chart_data =
  labels :: "'l list"
  datasets :: "dataset list"

subsection \<open>\<open>getTrendData\<close>\<close>

record bucket =
  present :: nat
  total :: nat

datatype error = TypeError | AxiosError

text \<open>The body of the \<open>forEach\<close> loop over \<open>attendanceRecords\<close>.\<close>

definition addRecord ::
  "platform \<Rightarrow> attendance_record \<Rightarrow> (date_string \<times> bucket) list \<Rightarrow> (date_string \<times> bucket) list"
where
  "addRecord P record recordsByDate =
     (let day = toLocaleDateString P (date record);
          created = (if map_of recordsByDate day = None
                     then AList.update day \<lparr>present = 0, total = 0\<rparr> recordsByDate
                     else recordsByDate);
          counted = AList.map_entry day (\<lambda>b. b\<lparr>total := total b + 1\<rparr>) created
      in if status record = ''present''
         then AList.map_entry day (\<lambda>b. b\<lparr>present := present b + 1\<rparr>) counted
         else counted)"

definition recordsByDate ::
  "platform \<Rightarrow> attendance_record list \<Rightarrow> (date_string \<times> bucket) list" where
  "recordsByDate P attendanceRecords =
     foldl (\<lambda>obj record. addRecord P record obj) [] attendanceRecords"

text \<open>The comparator \<open>(a, b) => new Date(a) - new Date(b)\<close>.\<close>

definition compareDates :: "platform \<Rightarrow> date_string \<Rightarrow> date_string \<Rightarrow> int option" where
  "compareDates P a b =
     (case (newDate P a, newDate P b) of
        (Some x, Some y) \<Rightarrow> Some (x - y)
      | _ \<Rightarrow> None)"

text \<open>
  The callback of \<open>dates.map\<close>, after the bucket has been read:
  \<open>total > 0 ? (present / total) * 100 : 0\<close>, the quotient rounded and then the product.
\<close>

definition percentage :: "bucket \<Rightarrow> rat" where
  "percentage b =
     (if total b > 0
      then toDouble (toDouble (of_nat (present b) / of_nat (total b)) * 100)
      else 0)"

text \<open>
  \<open>dates.map\<close>: destructuring \<open>recordsByDate[date]\<close> throws a TypeError when the object has
  no such key.
\<close>

fun percentages :: "(date_string \<times> bucket) list \<Rightarrow> date_string list \<Rightarrow> error + rat list" where
  "percentages obj [] = Inr []"
| "percentages obj (d # ds) =
     (case map_of obj d of
        None \<Rightarrow> Inl TypeError
      | Some b \<Rightarrow>
          (case percentages obj ds of
             Inl e \<Rightarrow> Inl e
           | Inr ps \<Rightarrow> Inr (percentage b # ps)))"

definition getTrendData ::
  "platform \<Rightarrow> attendance_record list \<Rightarrow> error + date_string chart_data" where
  "getTrendData P attendanceRecords =
     (let obj = recordsByDate P attendanceRecords;
          dates = Array_sort (compareDates P) (Object_keys obj)
      in case percentages obj dates of
           Inl e \<Rightarrow> Inl e
         | Inr ps \<Rightarrow>
             Inr \<lparr>labels = dates,
                  datasets =
                    [\<lparr>label = ''Daily Attendance %'',
                      data = ps,
                      backgroundColor = Color ''rgba(75, 192, 192, 0.6)'',
                      borderColor = Color ''rgba(75, 192, 192, 1)'',
                      borderWidth = None,
                      fill = Some False,
                      tension = Some (toDouble (1 / 10))\<rparr>]\<rparr>)"

text \<open>
  Notions used to state the properties: the day string of a record, and calendar order
  on the day strings of \<open>enUS\<close> (an invalid date is neither before nor after any date).
\<close>

definition dayOf :: "platform \<Rightarrow> attendance_record \<Rightarrow> date_string" where
  "dayOf P record = toLocaleDateString P (date record)"


subsection \<open>\<open>overallChartData\<close>\<close>

definition palette :: "string list" where
  "palette =
     [''rgba(255, 99, 132, 0.6)'',
      ''rgba(54, 162, 235, 0.6)'',
      ''rgba(255, 206, 86, 0.6)'',
      ''rgba(75, 192, 192, 0.6)'',
      ''rgba(153, 102, 255, 0.6)'']"

definition borderPalette :: "string list" where
  "borderPalette =
     [''rgba(255, 99, 132, 1)'',
      ''rgba(54, 162, 235, 1)'',
      ''rgba(255, 206, 86, 1)'',
      ''rgba(75, 192, 192, 1)'',
      ''rgba(153, 102, 255, 1)'']"

definition overallChartData :: "summary_row list \<Rightarrow> string chart_data" where
  "overallChartData attendanceSummary =
     \<lparr>labels = map subject_name attendanceSummary,
      datasets =
        [\<lparr>label = ''Attendance Percentage'',
          data = map attendance_percentage attendanceSummary,
          backgroundColor = Palette palette,
          borderColor = Palette borderPalette,
          borderWidth = Some 1,
          fill = None,
          tension = None\<rparr>]\<rparr>"

text \<open>
  The chart library resolves an option given as an array per data element: element \<open>i\<close>
  takes item \<open>i\<close>, and the items are looped over when there are fewer items than
  elements. That rule is the library's, not the source's; it is written down here to say
  what colour a row gets.
\<close>

fun elementColor :: "colors \<Rightarrow> nat \<Rightarrow> string option" where
  "elementColor (Color c) i = Some c"
| "elementColor (Palette cs) i = (if cs = [] then None else Some (cs ! (i mod length cs)))"

subsection \<open>The details table\<close>

text \<open>
  One row of the table body per record: the key, the shading of even rows, and the three
  cells. The date cell is the day string of the record (rendered with a short month name
  in locale \<open>en-US\<close>).
\<close>

record detail_row =
  row_key :: string
  shaded :: bool
  date_cell :: date_string
  subject_cell :: string
  status_class :: string
  status_cell :: string

datatype table_body = NoRecordsFound | Rows "detail_row list"

definition detailRow :: "platform \<Rightarrow> subject list \<Rightarrow> nat \<Rightarrow> attendance_record \<Rightarrow> detail_row" where
  "detailRow P subjects index record =
     (let subject_shown =
            (case find (\<lambda>s. subject_ident s = subject_id record) subjects of
               None \<Rightarrow> ''Unknown''
             | Some s \<Rightarrow> name s)
      in \<lparr>row_key = record_id record,
          shaded = (index mod 2 = 0),
          date_cell = toLocaleDateString P (date record),
          subject_cell = subject_shown,
          status_class =
            (if status record = ''present'' then ''bg-green-100 text-green-800''
             else ''bg-red-100 text-red-800''),
          status_cell = (if status record = ''present'' then ''Present'' else ''Absent'')\<rparr>)"

definition detailsBody :: "platform \<Rightarrow> subject list \<Rightarrow> attendance_record list \<Rightarrow> table_body" where
  "detailsBody P subjects attendanceRecords =
     (if length attendanceRecords = 0 then NoRecordsFound
      else Rows (map (\<lambda>(index, record). detailRow P subjects index record)
                   (enumerate 0 attendanceRecords)))"

subsection \<open>Effects, the backend and the session\<close>

text \<open>
  The backend is an oracle: what each request of one run settles with, \<open>Inl\<close> a rejected
  promise and \<open>Inr\<close> the data of the response.
\<close>

record backend =
  login_response :: "error + string"
  register_response :: "error + unit"
  me_response :: "error + user"
  summary_response :: "error + summary_row list"
  attendance_response :: "error + attendance_record list"
  subjects_response :: "error + subject list"

datatype effect =
    AxiosGet string
  | AxiosPost string
  | LocalStorageSetItem string
  | LocalStorageRemoveItem
  | SetIsAuthenticated bool
  | SetUser "user option"
  | SetLoading bool
  | SetAttendanceSummary "summary_row list"
  | SetAttendanceRecords "attendance_record list"
  | SetSubjects "subject list"
  | SetDashboardLoading bool
  | ConsoleError string
  | Navigate string

fun isRequest :: "effect \<Rightarrow> bool" where
  "isRequest (AxiosGet url) = True"
| "isRequest (AxiosPost url) = True"
| "isRequest _ = False"

text \<open>
  The state of one \<open>useAuth\<close> hook together with the \<open>token\<close> item of \<open>localStorage\<close>.
  \<open>initialSession\<close> has the initial values of the three \<open>useState\<close> calls.
\<close>

record session =
  token :: "string option"
  isAuthenticated :: bool
  user :: "user option"
  loading :: bool

definition initialSession :: "string option \<Rightarrow> session" where
  "initialSession stored = \<lparr>token = stored, isAuthenticated = False, user = None, loading = True\<rparr>"

fun apply_effect :: "effect \<Rightarrow> session \<Rightarrow> session" where
  "apply_effect (LocalStorageSetItem t) s = s\<lparr>token := Some t\<rparr>"
| "apply_effect LocalStorageRemoveItem s = s\<lparr>token := None\<rparr>"
| "apply_effect (SetIsAuthenticated b) s = s\<lparr>isAuthenticated := b\<rparr>"
| "apply_effect (SetUser u) s = s\<lparr>user := u\<rparr>"
| "apply_effect (SetLoading b) s = s\<lparr>loading := b\<rparr>"
| "apply_effect _ s = s"

definition run :: "effect list \<Rightarrow> session \<Rightarrow> session" where
  "run es s = foldl (\<lambda>s e. apply_effect e s) s es"

subsection \<open>\<open>useAuth\<close>\<close>

definition fetchUser :: "backend \<Rightarrow> effect list" where
  "fetchUser B =
     [AxiosGet ''/me''] @
     (case me_response B of
        Inr response_data \<Rightarrow> [SetUser (Some response_data), SetIsAuthenticated True]
      | Inl e \<Rightarrow> [ConsoleError ''Error fetching user:'', SetIsAuthenticated False, SetUser None]) @
     [SetLoading False]"

definition login :: "backend \<Rightarrow> effect list \<times> bool" where
  "login B =
     (case login_response B of
        Inr access_token \<Rightarrow>
          ([AxiosPost ''/login'', LocalStorageSetItem access_token, SetIsAuthenticated True] @
           fetchUser B, True)
      | Inl e \<Rightarrow> ([AxiosPost ''/login'', ConsoleError ''Login error:''], False))"

definition register :: "backend \<Rightarrow> effect list \<times> bool" where
  "register B =
     (case register_response B of
        Inr _ \<Rightarrow> ([AxiosPost ''/register''], True)
      | Inl e \<Rightarrow> ([AxiosPost ''/register'', ConsoleError ''Registration error:''], False))"

definition logout :: "effect list" where
  "logout = [LocalStorageRemoveItem, SetIsAuthenticated False, SetUser None]"

text \<open>\<open>if (token)\<close>: \<open>null\<close> and the empty string are falsy.\<close>

fun truthy :: "string option \<Rightarrow> bool" where
  "truthy None = False"
| "truthy (Some t) = (t \<noteq> [])"

text \<open>The effect that \<open>useAuth\<close> runs once, when the component mounts.\<close>

definition useAuth_mount :: "backend \<Rightarrow> session \<Rightarrow> effect list" where
  "useAuth_mount B s = (if truthy (token s) then fetchUser B else [SetLoading False])"

subsection \<open>\<open>ProtectedRoute\<close>\<close>

datatype view = LoadingView | Children | Null

text \<open>What the component renders for a session, and what its effect does after the render.\<close>

definition ProtectedRoute :: "session \<Rightarrow> view \<times> effect list" where
  "ProtectedRoute s =
     (if loading s then LoadingView else if isAuthenticated s then Children else Null,
      if \<not> loading s \<and> \<not> isAuthenticated s then [Navigate ''/login''] else [])"

subsection \<open>\<open>fetchData\<close> of the dashboard\<close>

definition fetchData :: "backend \<Rightarrow> effect list" where
  "fetchData B =
     [AxiosGet ''/attendance/summary''] @
     (case summary_response B of
        Inl e \<Rightarrow> [ConsoleError ''Error fetching data:'']
      | Inr summary \<Rightarrow>
          [SetAttendanceSummary summary, AxiosGet ''/attendance''] @
          (case attendance_response B of
             Inl e \<Rightarrow> [ConsoleError ''Error fetching data:'']
           | Inr records \<Rightarrow>
               [SetAttendanceRecords records, AxiosGet ''/subjects''] @
               (case subjects_response B of
                  Inl e \<Rightarrow> [ConsoleError ''Error fetching data:'']
                | Inr subjects \<Rightarrow> [SetSubjects subjects]))) @
     [SetDashboardLoading False]"

subsection \<open>Sample data\<close>

definition trendChart :: "date_string list \<Rightarrow> rat list \<Rightarrow> date_string chart_data" where
  "trendChart dates ps =
     \<lparr>labels = dates,
      datasets =
        [\<lparr>label = ''Daily Attendance %'',
          data = ps,
          backgroundColor = Color ''rgba(75, 192, 192, 0.6)'',
          borderColor = Color ''rgba(75, 192, 192, 1)'',
          borderWidth = None,
          fill = Some False,
          tension = Some (toDouble (1 / 10))\<rparr>]\<rparr>"

definition attendanceOn :: "string \<Rightarrow> string \<Rightarrow> int option \<Rightarrow> string \<Rightarrow> attendance_record" where
  "attendanceOn i sid t st = \<lparr>record_id = i, subject_id = sid, date = t, status = st\<rparr>"

definition elevenOfTwenty :: "attendance_record list" where
  "elevenOfTwenty =
     map (\<lambda>(i, st). attendanceOn i ''s1'' (Some 1704067200000) st)
       [(''r01'', ''present''), (''r02'', ''present''), (''r03'', ''absent''),
        (''r04'', ''present''), (''r05'', ''absent''), (''r06'', ''present''),
        (''r07'', ''absent''), (''r08'', ''present''), (''r09'', ''absent''),
        (''r10'', ''present''), (''r11'', ''absent''), (''r12'', ''present''),
        (''r13'', ''absent''), (''r14'', ''present''), (''r15'', ''absent''),
        (''r16'', ''present''), (''r17'', ''absent''), (''r18'', ''present''),
        (''r19'', ''absent''), (''r20'', ''present'')]"

definition sampleBackend :: backend where
  "sampleBackend =
     \<lparr>login_response = Inr ''jwt'',
      register_response = Inr (),
      me_response = Inr ''alice'',
      summary_response = Inr [],
      attendance_response = Inr [],
      subjects_response = Inr []\<rparr>"

section \<open>Properties of the rounding\<close>

lemma roundHalfEven_of_int: "roundHalfEven (of_int n) = n"
  by (simp add: roundHalfEven_def)

lemma roundHalfEven_floor: "\<lfloor>x\<rfloor> \<le> roundHalfEven x" "roundHalfEven x \<le> \<lfloor>x\<rfloor> + 1"
  by (simp_all add: roundHalfEven_def Let_def)

lemma roundHalfEven_mono:
  assumes "x \<le> y"
  shows "roundHalfEven x \<le> roundHalfEven y"
proof (cases "\<lfloor>x\<rfloor> = \<lfloor>y\<rfloor>")
  case True
  then show ?thesis
    using assms by (auto simp add: roundHalfEven_def Let_def)
next
  case False
  then have "\<lfloor>x\<rfloor> + 1 \<le> \<lfloor>y\<rfloor>"
    using floor_mono [OF assms] by linarith
  then show ?thesis
    using roundHalfEven_floor(2) [of x] roundHalfEven_floor(1) [of y] by linarith
qed

lemma roundHalfEven_error: "\<bar>of_int (roundHalfEven x) - x\<bar> \<le> 1 / 2"
proof -
  have "of_int \<lfloor>x\<rfloor> \<le> x" "x < of_int \<lfloor>x\<rfloor> + 1"
    by linarith+
  then show ?thesis
    by (auto simp add: roundHalfEven_def Let_def abs_le_iff)
qed

lemma exponent_bounds:
  assumes "0 < x"
  shows "power_int 2 (exponent x) \<le> x" and "x < power_int 2 (exponent x + 1)"
proof -
  obtain a b where q: "quotient_of x = (a, b)"
    by (cases "quotient_of x")
  have b: "0 < b" using q by (rule quotient_of_denom_pos)
  have x: "x = of_int a / of_int b" using q by (rule quotient_of_div)
  have a: "0 < a"
    using assms b x by (simp add: zero_less_divide_iff)
  define k where "k = bitlen a - bitlen b"
  have la: "1 \<le> bitlen a" and lb: "1 \<le> bitlen b"
    using a b by (simp_all add: bitlen_alt_def)
  have "(2::int) ^ nat (bitlen a - 1) \<le> a" "a < 2 ^ nat (bitlen a)"
    "(2::int) ^ nat (bitlen b - 1) \<le> b" "b < 2 ^ nat (bitlen b)"
    using bitlen_bounds [OF a] bitlen_bounds [OF b] by simp_all
  then have "(of_int (2 ^ nat (bitlen a - 1)) :: rat) \<le> of_int a"
    "(of_int a :: rat) < of_int (2 ^ nat (bitlen a))"
    "(of_int (2 ^ nat (bitlen b - 1)) :: rat) \<le> of_int b"
    "(of_int b :: rat) < of_int (2 ^ nat (bitlen b))"
    by (simp_all only: of_int_le_iff of_int_less_iff)
  then have ra: "power_int 2 (bitlen a - 1) \<le> (of_int a :: rat)"
    "(of_int a :: rat) < power_int 2 (bitlen a)"
    and rb: "power_int 2 (bitlen b - 1) \<le> (of_int b :: rat)"
    "(of_int b :: rat) < power_int 2 (bitlen b)"
    using la lb by (simp_all add: power_int_def)
  have pb: "(0::rat) < of_int b" using b by simp
  have "x < power_int 2 (bitlen a) / power_int 2 (bitlen b - 1)"
  proof -
    have "x < power_int (2::rat) (bitlen a) / of_int b"
      unfolding x using ra(2) pb by (simp add: divide_strict_right_mono)
    also have "\<dots> \<le> power_int 2 (bitlen a) / power_int 2 (bitlen b - 1)"
      using rb(1) pb by (intro divide_left_mono) (simp_all add: zero_less_mult_iff)
    finally show ?thesis .
  qed
  moreover have "power_int (2::rat) (bitlen a - (bitlen b - 1)) =
      power_int 2 (bitlen a) / power_int 2 (bitlen b - 1)"
    by (rule power_int_diff) simp
  moreover have "bitlen a - (bitlen b - 1) = k + 1"
    by (simp add: k_def)
  ultimately have upper: "x < power_int 2 (k + 1)"
    by (simp only:)
  have "power_int 2 (bitlen a - 1) / power_int 2 (bitlen b) < x"
  proof -
    have "power_int (2::rat) (bitlen a - 1) / power_int 2 (bitlen b) <
        power_int 2 (bitlen a - 1) / of_int b"
      using rb(2) pb by (intro divide_strict_left_mono) (simp_all add: zero_less_power_int)
    also have "\<dots> \<le> x"
      unfolding x using ra(1) pb by (simp add: divide_right_mono)
    finally show ?thesis .
  qed
  moreover have "power_int (2::rat) (bitlen a - 1 - bitlen b) =
      power_int 2 (bitlen a - 1) / power_int 2 (bitlen b)"
    by (rule power_int_diff) simp
  moreover have "bitlen a - 1 - bitlen b = k - 1"
    by (simp add: k_def)
  ultimately have lower: "power_int 2 (k - 1) < x"
    by (simp only:)
  have e: "exponent x = (if power_int 2 k \<le> x then k else k - 1)"
    by (simp add: exponent_def q k_def)
  show "power_int 2 (exponent x) \<le> x"
    using lower by (simp add: e)
  show "x < power_int 2 (exponent x + 1)"
    using upper by (auto simp add: e)
qed

lemma exponent_mono:
  assumes "0 < x" and "x \<le> y"
  shows "exponent x \<le> exponent y"
proof (rule ccontr)
  assume "\<not> exponent x \<le> exponent y"
  then have "exponent y + 1 \<le> exponent x" by simp
  then have "power_int (2::rat) (exponent y + 1) \<le> power_int 2 (exponent x)"
    by (intro power_int_increasing) simp_all
  moreover have "y < power_int 2 (exponent y + 1)"
    using exponent_bounds(2) [of y] assms by simp
  moreover have "power_int 2 (exponent x) \<le> x"
    using exponent_bounds(1) [OF assms(1)] .
  ultimately show False using assms(2) by linarith
qed


lemma toDouble_pos:
  assumes "0 < x"
  shows "toDouble x =
    of_int (roundHalfEven (x / power_int 2 (exponent x - 52))) * power_int 2 (exponent x - 52)"
  using assms by (simp add: toDouble_def Let_def)

lemma ulp_times:
  "power_int (2::rat) (e - 52) * 2 ^ 52 = power_int 2 e"
  "power_int (2::rat) (e - 52) * 2 ^ 53 = power_int 2 (e + 1)"
proof -
  have "power_int (2::rat) (e - 52 + 52) = power_int 2 (e - 52) * power_int 2 52"
    by (rule power_int_add) simp
  then show "power_int (2::rat) (e - 52) * 2 ^ 52 = power_int 2 e"
    by simp
  have "power_int (2::rat) (e - 52 + 53) = power_int 2 (e - 52) * power_int 2 53"
    by (rule power_int_add) simp
  moreover have "e - 52 + 53 = e + 1" by simp
  ultimately show "power_int (2::rat) (e - 52) * 2 ^ 53 = power_int 2 (e + 1)"
    by simp
qed

lemma scaled_bounds:
  assumes "0 < x"
  shows "2 ^ 52 \<le> x / power_int 2 (exponent x - 52)"
    and "x / power_int 2 (exponent x - 52) < 2 ^ 53"
proof -
  let ?u = "power_int (2::rat) (exponent x - 52)"
  have u: "0 < ?u" by simp
  have "?u * 2 ^ 52 \<le> x"
    using exponent_bounds(1) [OF assms] by (simp only: ulp_times)
  then show "2 ^ 52 \<le> x / ?u"
    using u by (simp add: pos_le_divide_eq mult.commute)
  have "x < ?u * 2 ^ 53"
    using exponent_bounds(2) [OF assms] by (simp only: ulp_times)
  then show "x / ?u < 2 ^ 53"
    using u by (simp add: pos_divide_less_eq mult.commute)
qed

lemma toDouble_bounds:
  assumes "0 < x"
  shows "power_int 2 (exponent x) \<le> toDouble x"
    and "toDouble x \<le> power_int 2 (exponent x + 1)"
proof -
  let ?u = "power_int (2::rat) (exponent x - 52)"
  let ?n = "roundHalfEven (x / ?u)"
  have u: "0 < ?u" by simp
  have "roundHalfEven (of_int (2 ^ 52)) \<le> ?n"
    using scaled_bounds(1) [OF assms] by (intro roundHalfEven_mono) simp
  then have "2 ^ 52 \<le> ?n"
    by (simp only: roundHalfEven_of_int)
  then have "(of_int (2 ^ 52) :: rat) \<le> of_int ?n"
    by (simp only: of_int_le_iff)
  then have lo: "2 ^ 52 * ?u \<le> of_int ?n * ?u"
    using u by (intro mult_right_mono) simp_all
  have "power_int 2 (exponent x) = 2 ^ 52 * ?u"
    using ulp_times(1) [of "exponent x"] by (simp only: mult.commute)
  also note lo
  also have "of_int ?n * ?u = toDouble x"
    by (rule toDouble_pos [OF assms, symmetric])
  finally show "power_int 2 (exponent x) \<le> toDouble x" .
  have "?n \<le> roundHalfEven (of_int (2 ^ 53))"
    using scaled_bounds(2) [OF assms] by (intro roundHalfEven_mono) simp
  then have "?n \<le> 2 ^ 53"
    by (simp only: roundHalfEven_of_int)
  then have "(of_int ?n :: rat) \<le> of_int (2 ^ 53)"
    by (simp only: of_int_le_iff)
  then have hi: "of_int ?n * ?u \<le> 2 ^ 53 * ?u"
    using u by (intro mult_right_mono) simp_all
  have "toDouble x = of_int ?n * ?u"
    by (rule toDouble_pos [OF assms])
  also note hi
  also have "2 ^ 53 * ?u = power_int 2 (exponent x + 1)"
    using ulp_times(2) [of "exponent x"] by (simp only: mult.commute)
  finally show "toDouble x \<le> power_int 2 (exponent x + 1)" .
qed

lemma toDouble_zero: "toDouble 0 = 0"
  by (simp add: toDouble_def)

lemma toDouble_nonneg:
  assumes "0 \<le> x"
  shows "0 \<le> toDouble x"
proof (cases "x = 0")
  case True
  then show ?thesis by (simp add: toDouble_zero)
next
  case False
  then have x: "0 < x" using assms by simp
  have "(0::rat) < power_int 2 (exponent x)" by simp
  then show ?thesis using toDouble_bounds(1) [OF x] by linarith
qed

lemma toDouble_mono_pos:
  assumes "0 < x" and "x \<le> y"
  shows "toDouble x \<le> toDouble y"
proof -
  have y: "0 < y" using assms by simp
  have le: "exponent x \<le> exponent y" using assms by (rule exponent_mono)
  show ?thesis
  proof (cases "exponent x = exponent y")
    case True
    let ?u = "power_int (2::rat) (exponent y - 52)"
    have u: "0 < ?u" by simp
    have "x / ?u \<le> y / ?u"
      using assms(2) u by (simp add: divide_right_mono)
    then have "roundHalfEven (x / ?u) \<le> roundHalfEven (y / ?u)"
      by (rule roundHalfEven_mono)
    then have "(of_int (roundHalfEven (x / ?u)) :: rat) \<le> of_int (roundHalfEven (y / ?u))"
      by (simp only: of_int_le_iff)
    then have "of_int (roundHalfEven (x / ?u)) * ?u \<le> of_int (roundHalfEven (y / ?u)) * ?u"
      using u by (intro mult_right_mono) simp_all
    then show ?thesis
      by (simp add: toDouble_pos [OF assms(1)] toDouble_pos [OF y] True)
  next
    case False
    then have "exponent x + 1 \<le> exponent y" using le by simp
    then have "power_int (2::rat) (exponent x + 1) \<le> power_int 2 (exponent y)"
      by (intro power_int_increasing) simp_all
    then show ?thesis
      using toDouble_bounds(2) [OF assms(1)] toDouble_bounds(1) [OF y] by linarith
  qed
qed

lemma toDouble_mono:
  assumes "0 \<le> x" and "x \<le> y"
  shows "toDouble x \<le> toDouble y"
proof (cases "x = 0")
  case True
  then show ?thesis using assms toDouble_nonneg [of y] by (simp add: toDouble_zero)
next
  case False
  then show ?thesis using assms by (intro toDouble_mono_pos) simp_all
qed

lemma toDouble_error:
  assumes "0 \<le> x"
  shows "\<bar>toDouble x - x\<bar> \<le> x / 2 ^ 53"
proof (cases "x = 0")
  case True
  then show ?thesis by (simp add: toDouble_zero)
next
  case False
  then have x: "0 < x" using assms by simp
  let ?u = "power_int (2::rat) (exponent x - 52)"
  let ?n = "roundHalfEven (x / ?u)"
  have u: "0 < ?u" by simp
  have "\<bar>of_int ?n - x / ?u\<bar> * ?u \<le> 1 / 2 * ?u"
    using roundHalfEven_error [of "x / ?u"] u by (intro mult_right_mono) simp_all
  moreover have "\<bar>of_int ?n - x / ?u\<bar> * ?u = \<bar>of_int ?n * ?u - x\<bar>"
  proof -
    have "\<bar>of_int ?n - x / ?u\<bar> * ?u = \<bar>(of_int ?n - x / ?u) * ?u\<bar>"
      using u by (simp add: abs_mult)
    also have "(of_int ?n - x / ?u) * ?u = of_int ?n * ?u - x"
      using u by (simp add: left_diff_distrib)
    finally show ?thesis .
  qed
  ultimately have "\<bar>toDouble x - x\<bar> \<le> ?u / 2"
    by (simp add: toDouble_pos [OF x])
  moreover have "?u * 2 ^ 52 \<le> x"
    using exponent_bounds(1) [OF x] by (simp only: ulp_times)
  ultimately show ?thesis
    by simp
qed

lemma toDouble_1: "toDouble 1 = 1"
  by code_simp

lemma toDouble_100: "toDouble 100 = 100"
  by code_simp

section \<open>Properties of the trend series\<close>

text \<open>
  C3. For an empty collection of attendance records \<open>getTrendData\<close> returns a chart, not
  an error, and the chart has no label and no value.
\<close>

theorem getTrendData_empty:
  "getTrendData P [] =
     Inr \<lparr>labels = [],
          datasets =
            [\<lparr>label = ''Daily Attendance %'',
              data = [],
              backgroundColor = Color ''rgba(75, 192, 192, 0.6)'',
              borderColor = Color ''rgba(75, 192, 192, 1)'',
              borderWidth = None,
              fill = Some False,
              tension = Some (toDouble (1 / 10))\<rparr>]\<rparr>"
  by (simp add: getTrendData_def recordsByDate_def Object_keys_def Array_sort_def)

subsection \<open>The grouping loop\<close>

lemma recordsByDate_snoc:
  "recordsByDate P (rs @ [r]) = addRecord P r (recordsByDate P rs)"
  by (simp add: recordsByDate_def)

lemma distinct_addRecord:
  "distinct (map fst obj) \<Longrightarrow> distinct (map fst (addRecord P r obj))"
  by (simp add: addRecord_def Let_def AList.distinct_map_entry AList.distinct_update)

lemma map_of_addRecord:
  "map_of (addRecord P r obj) k =
     (if k = dayOf P r
      then (let b = (case map_of obj k of None \<Rightarrow> \<lparr>present = 0, total = 0\<rparr> | Some b \<Rightarrow> b)
            in Some \<lparr>present = present b + (if status r = ''present'' then 1 else 0),
                     total = total b + 1\<rparr>)
      else map_of obj k)"
  by (auto simp add: addRecord_def dayOf_def Let_def AList.map_of_map_entry AList.update_conv'
      split: option.splits)

lemma keys_addRecord:
  "fst ` set (addRecord P r obj) = insert (dayOf P r) (fst ` set obj)"
proof -
  have "dom (map_of (addRecord P r obj)) = insert (dayOf P r) (dom (map_of obj))"
    by (auto simp add: map_of_addRecord Let_def dom_def split: if_splits)
  then show ?thesis
    by (simp add: dom_map_of_conv_image_fst)
qed

lemma distinct_recordsByDate: "distinct (map fst (recordsByDate P rs))"
  by (induction rs rule: rev_induct)
     (simp_all add: recordsByDate_snoc distinct_addRecord, simp add: recordsByDate_def)

lemma keys_recordsByDate: "fst ` set (recordsByDate P rs) = dayOf P ` set rs"
  by (induction rs rule: rev_induct)
     (simp add: recordsByDate_def, simp add: recordsByDate_snoc keys_addRecord)

lemma map_of_recordsByDate:
  "map_of (recordsByDate P rs) k =
     (if k \<in> dayOf P ` set rs
      then Some \<lparr>present = length (filter (\<lambda>r. dayOf P r = k \<and> status r = ''present'') rs),
                 total = length (filter (\<lambda>r. dayOf P r = k) rs)\<rparr>
      else None)"
proof (induction rs rule: rev_induct)
  case Nil
  show ?case by (simp add: recordsByDate_def)
next
  case (snoc r rs)
  show ?case
  proof (cases "k = dayOf P r")
    case True
    then show ?thesis
      using snoc.IH
      by (force simp add: recordsByDate_snoc map_of_addRecord Let_def filter_empty_conv image_iff)
  next
    case False
    then show ?thesis
      using snoc.IH by (auto simp add: recordsByDate_snoc map_of_addRecord)
  qed
qed

subsection \<open>The sort\<close>

lemma set_sort_insert: "set (sort_insert f x xs) = insert x (set xs)"
  by (induction xs) auto

lemma distinct_sort_insert:
  "distinct (sort_insert f x xs) \<longleftrightarrow> x \<notin> set xs \<and> distinct xs"
  by (induction xs) (auto simp add: set_sort_insert)

lemma set_sort_loop:
  "set (foldl (\<lambda>acc x. sort_insert f x acc) acc xs) = set acc \<union> set xs"
  by (induction xs arbitrary: acc) (auto simp add: set_sort_insert)

lemma distinct_sort_loop:
  "distinct (foldl (\<lambda>acc x. sort_insert f x acc) acc xs) \<longleftrightarrow> distinct (acc @ xs)"
  by (induction xs arbitrary: acc) (auto simp add: set_sort_insert distinct_sort_insert)

lemma set_Array_sort: "set (Array_sort f xs) = set xs"
  by (simp add: Array_sort_def set_sort_loop)

lemma distinct_Array_sort: "distinct (Array_sort f xs) \<longleftrightarrow> distinct xs"
  by (simp add: Array_sort_def distinct_sort_loop)

text \<open>
  Where the comparator agrees with a key, the sort orders by that key.
\<close>

lemma sorted_sort_insert:
  fixes k :: "'a \<Rightarrow> int"
  assumes "\<And>y. y \<in> set xs \<Longrightarrow> (SortCompare f x y < 0) = (k x < k y)"
    and "sorted_wrt (\<lambda>a b. k a \<le> k b) xs"
  shows "sorted_wrt (\<lambda>a b. k a \<le> k b) (sort_insert f x xs)"
  using assms
proof (induction xs)
  case Nil
  show ?case by simp
next
  case (Cons y ys)
  show ?case
  proof (cases "k x < k y")
    case True
    then have "SortCompare f x y < 0" using Cons.prems(1) by simp
    moreover have "\<forall>z\<in>set ys. k x \<le> k z" using True Cons.prems(2) by fastforce
    ultimately show ?thesis using True Cons.prems(2) by simp
  next
    case False
    then have "\<not> SortCompare f x y < 0" using Cons.prems(1) by simp
    moreover have "sorted_wrt (\<lambda>a b. k a \<le> k b) (sort_insert f x ys)"
      using Cons.IH Cons.prems by simp
    ultimately show ?thesis using False Cons.prems(2) by (auto simp add: set_sort_insert)
  qed
qed

lemma sorted_sort_loop:
  fixes k :: "'a \<Rightarrow> int"
  assumes "\<And>x y. x \<in> set acc \<union> set xs \<Longrightarrow> y \<in> set acc \<union> set xs \<Longrightarrow>
             (SortCompare f x y < 0) = (k x < k y)"
    and "sorted_wrt (\<lambda>a b. k a \<le> k b) acc"
  shows "sorted_wrt (\<lambda>a b. k a \<le> k b) (foldl (\<lambda>acc x. sort_insert f x acc) acc xs)"
  using assms
proof (induction xs arbitrary: acc)
  case Nil
  then show ?case by simp
next
  case (Cons x xs)
  have "sorted_wrt (\<lambda>a b. k a \<le> k b) (sort_insert f x acc)"
    using Cons.prems by (intro sorted_sort_insert) auto
  moreover have "\<And>a b. a \<in> set (sort_insert f x acc) \<union> set xs \<Longrightarrow>
      b \<in> set (sort_insert f x acc) \<union> set xs \<Longrightarrow> (SortCompare f a b < 0) = (k a < k b)"
    using Cons.prems(1) by (auto simp add: set_sort_insert)
  ultimately show ?case using Cons.IH [of "sort_insert f x acc"] by simp
qed

lemma sorted_Array_sort:
  fixes k :: "'a \<Rightarrow> int"
  assumes "\<And>x y. x \<in> set xs \<Longrightarrow> y \<in> set xs \<Longrightarrow> (SortCompare f x y < 0) = (k x < k y)"
  shows "sorted_wrt (\<lambda>a b. k a \<le> k b) (Array_sort f xs)"
  unfolding Array_sort_def using assms by (intro sorted_sort_loop) auto

subsection \<open>The chart that \<open>getTrendData\<close> returns\<close>

lemma percentages_defined:
  "set ds \<subseteq> fst ` set obj \<Longrightarrow>
   percentages obj ds = Inr (map (\<lambda>d. percentage (the (map_of obj d))) ds)"
proof (induction ds)
  case Nil
  show ?case by simp
next
  case (Cons d ds)
  then have "map_of obj d \<noteq> None"
    by (simp add: map_of_eq_None_iff)
  then obtain b where "map_of obj d = Some b"
    by blast
  then show ?case using Cons by simp
qed


lemma getTrendData_returns:
  "getTrendData P rs =
     Inr \<lparr>labels = Array_sort (compareDates P) (Object_keys (recordsByDate P rs)),
          datasets =
            [\<lparr>label = ''Daily Attendance %'',
              data = map (\<lambda>d. percentage (the (map_of (recordsByDate P rs) d)))
                       (Array_sort (compareDates P) (Object_keys (recordsByDate P rs))),
              backgroundColor = Color ''rgba(75, 192, 192, 0.6)'',
              borderColor = Color ''rgba(75, 192, 192, 1)'',
              borderWidth = None,
              fill = Some False,
              tension = Some (toDouble (1 / 10))\<rparr>]\<rparr>"
proof -
  have "set (Array_sort (compareDates P) (Object_keys (recordsByDate P rs)))
          \<subseteq> fst ` set (recordsByDate P rs)"
    by (simp add: set_Array_sort Object_keys_def)
  then show ?thesis
    by (simp add: getTrendData_def Let_def percentages_defined)
qed

lemma labels_getTrendData:
  assumes "getTrendData P rs = Inr c"
  shows "set (labels c) = dayOf P ` set rs" and "distinct (labels c)"
  using assms
  by (auto simp add: getTrendData_returns set_Array_sort distinct_Array_sort Object_keys_def
      keys_recordsByDate distinct_recordsByDate)

subsection \<open>The labels\<close>




subsection \<open>The percentages\<close>

text \<open>
  The callback gives 0 for a bucket without records. No bucket of \<open>recordsByDate\<close> is
  one: a bucket is created for a record and counts it.
\<close>

lemma percentage_zero_total: "total b = 0 \<Longrightarrow> percentage b = 0"
  by (simp add: percentage_def)

lemma bucket_total_positive:
  assumes "map_of (recordsByDate P rs) k = Some b"
  shows "0 < total b"
proof -
  have "k \<in> dayOf P ` set rs" and "total b = length (filter (\<lambda>r. dayOf P r = k) rs)"
    using assms by (auto simp add: map_of_recordsByDate split: if_splits)
  then show ?thesis
    by (auto simp add: filter_empty_conv)
qed

lemma length_filter_conj_le:
  "length (filter (\<lambda>x. p x \<and> q x) xs) \<le> length (filter p xs)"
  by (induction xs) auto

lemma percentage_range:
  assumes "present b \<le> total b"
  shows "0 \<le> percentage b" and "percentage b \<le> 100"
proof -
  let ?a = "(of_nat (present b) :: rat) / of_nat (total b)"
  let ?q = "toDouble ?a"
  have a: "0 \<le> ?a" by simp
  then have q: "0 \<le> ?q" by (rule toDouble_nonneg)
  then have "0 \<le> toDouble (?q * 100)"
    by (intro toDouble_nonneg) simp
  then show "0 \<le> percentage b"
    by (simp add: percentage_def)
  show "percentage b \<le> 100"
  proof (cases "total b > 0")
    case True
    have "(of_nat (present b) :: rat) \<le> of_nat (total b)"
      using assms by simp
    then have "?a \<le> 1"
      using True by (simp add: divide_le_eq_1)
    then have "?q \<le> toDouble 1"
      using a by (intro toDouble_mono)
    then have "?q * 100 \<le> 100"
      by (simp add: toDouble_1)
    moreover have "0 \<le> ?q * 100"
      using q by simp
    ultimately have "toDouble (?q * 100) \<le> toDouble 100"
      by (intro toDouble_mono)
    then show ?thesis
      using True by (simp add: percentage_def toDouble_100)
  next
    case False
    then show ?thesis by (simp add: percentage_def)
  qed
qed

lemma two_roundings:
  fixes a q r :: rat
  assumes a: "0 \<le> a"
    and e1: "\<bar>q - a\<bar> \<le> a / 2 ^ 53"
    and e2: "\<bar>r - q * 100\<bar> \<le> q * 100 / 2 ^ 53"
  shows "\<bar>r - 100 * a\<bar> \<le> 100 * a * (2 / 2 ^ 53 + 1 / 2 ^ 106)"
proof -
  have q1: "q - a \<le> a / 2 ^ 53" and q2: "a - q \<le> a / 2 ^ 53"
    using e1 by (simp_all only: abs_le_iff) linarith+
  have r1: "r - q * 100 \<le> q * 100 / 2 ^ 53" and r2: "q * 100 - r \<le> q * 100 / 2 ^ 53"
    using e2 by (simp_all only: abs_le_iff) linarith+
  have "r - 100 * a \<le> 100 * a * (2 / 2 ^ 53 + 1 / 2 ^ 106)"
    using q1 r1 a by simp
  moreover have "100 * a - r \<le> 100 * a * (2 / 2 ^ 53 + 1 / 2 ^ 106)"
    using q2 r2 a by simp
  then have "- (r - 100 * a) \<le> 100 * a * (2 / 2 ^ 53 + 1 / 2 ^ 106)"
    by (simp only: minus_diff_eq)
  ultimately show ?thesis
    by (rule abs_leI)
qed

lemma percentage_error:
  assumes "0 < total b"
  shows "\<bar>percentage b - 100 * of_nat (present b) / of_nat (total b)\<bar>
           \<le> 100 * of_nat (present b) / of_nat (total b) * (2 / 2 ^ 53 + 1 / 2 ^ 106)"
proof -
  define a :: rat where "a = of_nat (present b) / of_nat (total b)"
  define q where "q = toDouble a"
  define r where "r = toDouble (q * 100)"
  have a: "0 \<le> a" by (simp add: a_def)
  then have q: "0 \<le> q" unfolding q_def by (rule toDouble_nonneg)
  have e1: "\<bar>q - a\<bar> \<le> a / 2 ^ 53"
    unfolding q_def using a by (rule toDouble_error)
  have "0 \<le> q * 100" using q by simp
  then have e2: "\<bar>r - q * 100\<bar> \<le> q * 100 / 2 ^ 53"
    unfolding r_def by (rule toDouble_error)
  have "\<bar>r - 100 * a\<bar> \<le> 100 * a * (2 / 2 ^ 53 + 1 / 2 ^ 106)"
    using a e1 e2 by (rule two_roundings)
  moreover have "percentage b = r"
    using assms by (simp add: percentage_def r_def q_def a_def)
  ultimately show ?thesis
    by (simp add: a_def)
qed

text \<open>
  C2. For every collection of attendance records and every position of the trend series,
  the label has a bucket with a positive total, and the value at that position is the
  double that \<open>(present / total) * 100\<close> gives for it: it lies between 0 and 100 and is
  within the relative error \<open>2/2^53 + 1/2^106\<close> of two roundings from
  \<open>100 * present / total\<close>. (It is not always equal to it: see the counterexample below.)
  The callback gives 0 for a bucket whose total is 0.
\<close>

theorem getTrendData_percentage:
  assumes "getTrendData P rs = Inr c" and "i < length (labels c)"
  shows "(\<exists>b ds. datasets c = [ds] \<and> length (data ds) = length (labels c) \<and>
           map_of (recordsByDate P rs) (labels c ! i) = Some b \<and>
           0 < total b \<and> present b \<le> total b \<and>
           data ds ! i = toDouble (toDouble (of_nat (present b) / of_nat (total b)) * 100) \<and>
           0 \<le> data ds ! i \<and> data ds ! i \<le> 100 \<and>
           \<bar>data ds ! i - 100 * of_nat (present b) / of_nat (total b)\<bar>
             \<le> 100 * of_nat (present b) / of_nat (total b) * (2 / 2 ^ 53 + 1 / 2 ^ 106)) \<and>
         (\<forall>z. total z = 0 \<longrightarrow> percentage z = 0)"
proof -
  let ?obj = "recordsByDate P rs"
  let ?k = "labels c ! i"
  have "?k \<in> set (labels c)" using assms(2) by simp
  then have "?k \<in> dayOf P ` set rs"
    using labels_getTrendData(1) [OF assms(1)] by simp
  then obtain b where b: "map_of ?obj ?k = Some b" and le: "present b \<le> total b"
    by (auto simp add: map_of_recordsByDate length_filter_conj_le)
  have pos: "0 < total b"
    using b by (rule bucket_total_positive)
  obtain ds where ds: "datasets c = [ds]" and len: "length (data ds) = length (labels c)"
    and v: "data ds ! i = percentage b"
    using assms b by (auto simp add: getTrendData_returns)
  have "percentage b = toDouble (toDouble (of_nat (present b) / of_nat (total b)) * 100)"
    using pos by (simp add: percentage_def)
  moreover have "0 \<le> percentage b" "percentage b \<le> 100"
    using percentage_range [OF le] by simp_all
  moreover note percentage_error [OF pos]
  ultimately have "\<exists>b ds. datasets c = [ds] \<and> length (data ds) = length (labels c) \<and>
           map_of (recordsByDate P rs) (labels c ! i) = Some b \<and>
           0 < total b \<and> present b \<le> total b \<and>
           data ds ! i = toDouble (toDouble (of_nat (present b) / of_nat (total b)) * 100) \<and>
           0 \<le> data ds ! i \<and> data ds ! i \<le> 100 \<and>
           \<bar>data ds ! i - 100 * of_nat (present b) / of_nat (total b)\<bar>
             \<le> 100 * of_nat (present b) / of_nat (total b) * (2 / 2 ^ 53 + 1 / 2 ^ 106)"
    using b ds len v pos le by (intro exI [of _ b] exI [of _ ds]) simp
  then show ?thesis
    using percentage_zero_total by blast
qed

theorem getTrendData_percentage_witness:
  "getTrendData (enUS 0)
     [attendanceOn ''r1'' ''s1'' (Some 1704153600000) ''present'',
      attendanceOn ''r2'' ''s1'' (Some 1704067200000) ''present'',
      attendanceOn ''r3'' ''s2'' (Some 1704103200000) ''absent''] =
     Inr (trendChart [LocalDay 19723, LocalDay 19724] [50, 100]) \<and>
   (0::nat) < length (labels (trendChart [LocalDay 19723, LocalDay 19724] [50, 100])) \<and>
   map_of (recordsByDate (enUS 0)
     [attendanceOn ''r1'' ''s1'' (Some 1704153600000) ''present'',
      attendanceOn ''r2'' ''s1'' (Some 1704067200000) ''present'',
      attendanceOn ''r3'' ''s2'' (Some 1704103200000) ''absent'']) (LocalDay 19723) =
     Some \<lparr>present = 1, total = 2\<rparr> \<and>
   toDouble (toDouble (of_nat 1 / of_nat 2) * 100) = 50 \<and>
   percentage \<lparr>present = 0, total = 0\<rparr> = 0"
proof -
  let ?rs = "[attendanceOn ''r1'' ''s1'' (Some 1704153600000) ''present'',
      attendanceOn ''r2'' ''s1'' (Some 1704067200000) ''present'',
      attendanceOn ''r3'' ''s2'' (Some 1704103200000) ''absent'']"
  let ?c = "trendChart [LocalDay 19723, LocalDay 19724] [50, 100]"
  have h1: "getTrendData (enUS 0) ?rs = Inr ?c"
    by code_simp
  have h2: "0 < length (labels ?c)"
    by (simp add: trendChart_def)
  have b: "map_of (recordsByDate (enUS 0) ?rs) (LocalDay 19723) = Some \<lparr>present = 1, total = 2\<rparr>"
    by (simp add: recordsByDate_def addRecord_def toLocaleDateString_def
        enUS_def msPerDay_def Let_def attendanceOn_def)
  have l: "labels ?c ! 0 = LocalDay 19723" and d: "datasets ?c =
      [\<lparr>label = ''Daily Attendance %'', data = [50, 100],
        backgroundColor = Color ''rgba(75, 192, 192, 0.6)'',
        borderColor = Color ''rgba(75, 192, 192, 1)'',
        borderWidth = None, fill = Some False, tension = Some (toDouble (1 / 10))\<rparr>]"
    by (simp_all add: trendChart_def)
  have "toDouble (toDouble (of_nat 1 / of_nat 2) * 100) = 50"
    and "percentage \<lparr>present = 0, total = 0\<rparr> = 0"
    using getTrendData_percentage [OF h1 h2] by (auto simp add: b l d)
  then show ?thesis
    using h1 h2 b by simp
qed

theorem getTrendData_percentage_rounding_counterexample:
  "getTrendData (enUS 0) elevenOfTwenty =
     Inr (trendChart [LocalDay 19723] [55 + 1 / 2 ^ 47]) \<and>
   map_of (recordsByDate (enUS 0) elevenOfTwenty) (LocalDay 19723) =
     Some \<lparr>present = 11, total = 20\<rparr> \<and>
   (55 + 1 / 2 ^ 47 :: rat) \<noteq> 100 * of_nat 11 / of_nat 20"
proof -
  have "getTrendData (enUS 0) elevenOfTwenty =
     Inr (trendChart [LocalDay 19723] [55 + 1 / 2 ^ 47])"
    by code_simp
  moreover have "map_of (recordsByDate (enUS 0) elevenOfTwenty) (LocalDay 19723) =
     Some \<lparr>present = 11, total = 20\<rparr>"
    by code_simp
  ultimately show ?thesis
    by simp
qed

subsection \<open>What a status counts for\<close>

lemma bucket_counts:
  assumes "map_of (recordsByDate P rs) k = Some b"
  shows "total b = length (filter (\<lambda>r. dayOf P r = k) rs)"
    and "present b = length (filter (\<lambda>r. dayOf P r = k \<and> status r = ''present'') rs)"
  using assms by (auto simp add: map_of_recordsByDate split: if_splits)

text \<open>
  C10. A record whose status is not exactly the string \<open>present\<close> counts as absent: the
  bucket of a day has as total the number of records of that day and as present count the
  number of those whose status is exactly \<open>present\<close>, and the status cell of the details
  table shows \<open>Present\<close> for that status and \<open>Absent\<close> for every other one.
\<close>

theorem status_other_than_present_is_absent:
  assumes "map_of (recordsByDate P rs) k = Some b"
  shows "total b = length (filter (\<lambda>r. dayOf P r = k) rs) \<and>
         present b = length (filter (\<lambda>r. dayOf P r = k \<and> status r = ''present'') rs) \<and>
         (\<forall>subjects i r.
            status_cell (detailRow P subjects i r) =
              (if status r = ''present'' then ''Present'' else ''Absent''))"
  using bucket_counts [OF assms] by (simp add: detailRow_def Let_def)

theorem status_other_than_present_is_absent_witness:
  "map_of (recordsByDate (enUS 0)
      [attendanceOn ''r1'' ''s1'' (Some 1704067200000) ''present'',
       attendanceOn ''r2'' ''s2'' (Some 1704067200000) ''Present'',
       attendanceOn ''r3'' ''s3'' (Some 1704067200000) ''late''])
     (LocalDay 19723) = Some \<lparr>present = 1, total = 3\<rparr> \<and>
   total \<lparr>present = 1, total = 3\<rparr> =
     length (filter (\<lambda>r. dayOf (enUS 0) r = LocalDay 19723)
      [attendanceOn ''r1'' ''s1'' (Some 1704067200000) ''present'',
       attendanceOn ''r2'' ''s2'' (Some 1704067200000) ''Present'',
       attendanceOn ''r3'' ''s3'' (Some 1704067200000) ''late'']) \<and>
   present \<lparr>present = 1, total = 3\<rparr> =
     length (filter (\<lambda>r. dayOf (enUS 0) r = LocalDay 19723 \<and> status r = ''present'')
      [attendanceOn ''r1'' ''s1'' (Some 1704067200000) ''present'',
       attendanceOn ''r2'' ''s2'' (Some 1704067200000) ''Present'',
       attendanceOn ''r3'' ''s3'' (Some 1704067200000) ''late'']) \<and>
   status_cell (detailRow (enUS 0) [] 2 (attendanceOn ''r3'' ''s3'' (Some 1704067200000) ''late''))
     = ''Absent''"
proof -
  let ?rs = "[attendanceOn ''r1'' ''s1'' (Some 1704067200000) ''present'',
       attendanceOn ''r2'' ''s2'' (Some 1704067200000) ''Present'',
       attendanceOn ''r3'' ''s3'' (Some 1704067200000) ''late'']"
  have h: "map_of (recordsByDate (enUS 0) ?rs) (LocalDay 19723) = Some \<lparr>present = 1, total = 3\<rparr>"
    by (simp add: recordsByDate_def addRecord_def toLocaleDateString_def
        enUS_def msPerDay_def Let_def attendanceOn_def)
  have s: "status (attendanceOn ''r3'' ''s3'' (Some 1704067200000) ''late'') \<noteq> ''present''"
    by (simp add: attendanceOn_def)
  show ?thesis
    using h s status_other_than_present_is_absent [OF h] by simp
qed

section \<open>Properties of the details table\<close>

lemma nth_detailsBody:
  assumes "i < length rs"
  shows "detailsBody P subjects rs = Rows (map (\<lambda>(index, record). detailRow P subjects index record) (enumerate 0 rs))"
    and "map (\<lambda>(index, record). detailRow P subjects index record) (enumerate 0 rs) ! i
         = detailRow P subjects i (rs ! i)"
  using assms by (auto simp add: detailsBody_def nth_enumerate_eq)

lemma subject_cell_unknown:
  assumes "\<forall>s\<in>set subjects. subject_ident s \<noteq> subject_id r"
  shows "subject_cell (detailRow P subjects i r) = ''Unknown''"
proof -
  have "find (\<lambda>s. subject_ident s = subject_id r) subjects = None"
    using assms by (simp add: find_None_iff)
  then show ?thesis by (simp add: detailRow_def)
qed

lemma subject_cell_known:
  assumes "\<exists>s\<in>set subjects. subject_ident s = subject_id r"
  shows "\<exists>s\<in>set subjects. subject_ident s = subject_id r \<and>
           subject_cell (detailRow P subjects i r) = name s"
proof -
  have "find (\<lambda>s. subject_ident s = subject_id r) subjects \<noteq> None"
    using assms by (auto simp add: find_None_iff)
  then obtain s where s: "find (\<lambda>s. subject_ident s = subject_id r) subjects = Some s"
    by blast
  then have "s \<in> set subjects" "subject_ident s = subject_id r"
    by (auto simp add: find_Some_iff)
  then show ?thesis using s by (auto simp add: detailRow_def)
qed

text \<open>
  C9. The details table has one row for every attendance record, in order. The subject
  cell of a record whose \<open>subject_id\<close> matches no known subject is \<open>Unknown\<close>; the
  subject cell of a record whose \<open>subject_id\<close> matches is the name of a subject with
  that id.
\<close>

theorem details_row_for_every_record:
  assumes "i < length rs"
  shows "\<exists>rows. detailsBody P subjects rs = Rows rows \<and> length rows = length rs \<and>
           row_key (rows ! i) = record_id (rs ! i) \<and>
           ((\<forall>s\<in>set subjects. subject_ident s \<noteq> subject_id (rs ! i)) \<longrightarrow>
              subject_cell (rows ! i) = ''Unknown'') \<and>
           ((\<exists>s\<in>set subjects. subject_ident s = subject_id (rs ! i)) \<longrightarrow>
              (\<exists>s\<in>set subjects. subject_ident s = subject_id (rs ! i) \<and>
                 subject_cell (rows ! i) = name s))"
proof -
  let ?rows = "map (\<lambda>(index, record). detailRow P subjects index record) (enumerate 0 rs)"
  have "detailsBody P subjects rs = Rows ?rows" and row: "?rows ! i = detailRow P subjects i (rs ! i)"
    using nth_detailsBody [OF assms] by simp_all
  moreover have "length ?rows = length rs"
    by simp
  moreover have "row_key (?rows ! i) = record_id (rs ! i)"
    by (simp only: row) (simp add: detailRow_def Let_def)
  moreover have "(\<forall>s\<in>set subjects. subject_ident s \<noteq> subject_id (rs ! i)) \<longrightarrow>
              subject_cell (?rows ! i) = ''Unknown''"
    using subject_cell_unknown by (simp add: row)
  moreover have "(\<exists>s\<in>set subjects. subject_ident s = subject_id (rs ! i)) \<longrightarrow>
              (\<exists>s\<in>set subjects. subject_ident s = subject_id (rs ! i) \<and>
                 subject_cell (?rows ! i) = name s)"
    using subject_cell_known by (simp add: row)
  ultimately show ?thesis by blast
qed

theorem details_row_for_every_record_witness:
  "(1::nat) < length [attendanceOn ''r1'' ''s1'' (Some 1704067200000) ''present'',
                      attendanceOn ''r2'' ''s9'' (Some 1704153600000) ''absent''] \<and>
   detailsBody (enUS 0)
     [\<lparr>subject_ident = ''s1'', name = ''Mathematics''\<rparr>, \<lparr>subject_ident = ''s2'', name = ''Physics''\<rparr>]
     [attendanceOn ''r1'' ''s1'' (Some 1704067200000) ''present'',
      attendanceOn ''r2'' ''s9'' (Some 1704153600000) ''absent''] =
   Rows [\<lparr>row_key = ''r1'', shaded = True, date_cell = LocalDay 19723,
           subject_cell = ''Mathematics'', status_class = ''bg-green-100 text-green-800'',
           status_cell = ''Present''\<rparr>,
         \<lparr>row_key = ''r2'', shaded = False, date_cell = LocalDay 19724,
           subject_cell = ''Unknown'', status_class = ''bg-red-100 text-red-800'',
           status_cell = ''Absent''\<rparr>]"
proof -
  let ?rs = "[attendanceOn ''r1'' ''s1'' (Some 1704067200000) ''present'',
              attendanceOn ''r2'' ''s9'' (Some 1704153600000) ''absent'']"
  let ?subjects = "[\<lparr>subject_ident = ''s1'', name = ''Mathematics''\<rparr>,
                    \<lparr>subject_ident = ''s2'', name = ''Physics''\<rparr>]"
  have h: "(1::nat) < length ?rs"
    by simp
  have e: "detailsBody (enUS 0) ?subjects ?rs =
     Rows [\<lparr>row_key = ''r1'', shaded = True, date_cell = LocalDay 19723,
           subject_cell = ''Mathematics'', status_class = ''bg-green-100 text-green-800'',
           status_cell = ''Present''\<rparr>,
         \<lparr>row_key = ''r2'', shaded = False, date_cell = LocalDay 19724,
           subject_cell = ''Unknown'', status_class = ''bg-red-100 text-red-800'',
           status_cell = ''Absent''\<rparr>]"
    by (simp add: detailsBody_def detailRow_def attendanceOn_def enumerate_eq_zip
        toLocaleDateString_def enUS_def msPerDay_def Let_def upt_rec)
  show ?thesis
    using h e details_row_for_every_record [OF h, of "enUS 0" ?subjects] by simp
qed

section \<open>Properties of the overall chart\<close>

text \<open>
  C8. For every sequence of summary rows the overall chart has exactly one dataset,
  labelled \<open>Attendance Percentage\<close>, whose values are the attendance percentages of the
  rows in the order of the rows, next to the subject names in the same order; its colours
  are a fixed palette of five, which the chart library cycles over the rows.
\<close>

theorem overallChartData_series:
  "\<exists>ds. datasets (overallChartData attendanceSummary) = [ds] \<and>
     label ds = ''Attendance Percentage'' \<and>
     labels (overallChartData attendanceSummary) = map subject_name attendanceSummary \<and>
     data ds = map attendance_percentage attendanceSummary \<and>
     backgroundColor ds = Palette palette \<and>
     borderColor ds = Palette borderPalette \<and>
     length palette = 5 \<and>
     (\<forall>i. elementColor (backgroundColor ds) i = Some (palette ! (i mod 5))) \<and>
     (\<forall>i. elementColor (backgroundColor ds) (i + 5) = elementColor (backgroundColor ds) i)"
proof -
  have "length palette = 5" "palette \<noteq> []"
    by (simp_all add: palette_def)
  then show ?thesis
    by (simp add: overallChartData_def)
qed

theorem overallChartData_series_witness:
  "overallChartData
     [\<lparr>summary_subject_id = ''s2'', subject_name = ''Physics'', subject_code = ''PH'',
        total_classes = 10, classes_attended = 9, attendance_percentage = 90\<rparr>,
      \<lparr>summary_subject_id = ''s1'', subject_name = ''Mathematics'', subject_code = ''MA'',
        total_classes = 8, classes_attended = 4, attendance_percentage = 50\<rparr>] =
   \<lparr>labels = [''Physics'', ''Mathematics''],
    datasets = [\<lparr>label = ''Attendance Percentage'', data = [90, 50],
                 backgroundColor = Palette palette, borderColor = Palette borderPalette,
                 borderWidth = Some 1, fill = None, tension = None\<rparr>]\<rparr> \<and>
   elementColor (Palette palette) 6 = Some ''rgba(54, 162, 235, 0.6)''"
proof -
  let ?rows = "[\<lparr>summary_subject_id = ''s2'', subject_name = ''Physics'', subject_code = ''PH'',
        total_classes = 10, classes_attended = 9, attendance_percentage = 90\<rparr>,
      \<lparr>summary_subject_id = ''s1'', subject_name = ''Mathematics'', subject_code = ''MA'',
        total_classes = 8, classes_attended = 4, attendance_percentage = 50\<rparr>]"
  obtain ds where ds: "datasets (overallChartData ?rows) = [ds]"
      "backgroundColor ds = Palette palette"
      "\<forall>i. elementColor (backgroundColor ds) i = Some (palette ! (i mod 5))"
    using overallChartData_series [of ?rows] by blast
  have "elementColor (Palette palette) 6 = Some (palette ! (6 mod 5))"
    using ds(2,3) by metis
  then have "elementColor (Palette palette) 6 = Some ''rgba(54, 162, 235, 0.6)''"
    by (simp add: palette_def)
  then show ?thesis
    by (simp add: overallChartData_def)
qed

section \<open>Properties of the dashboard fetch\<close>

text \<open>
  C4. The three fetches of the dashboard are issued one after the other, in the order
  summary, records, subjects, a later one only when the earlier ones have succeeded; the
  loading flag is cleared exactly once, as the last effect, after every fetch that was
  issued has settled. (They are not independent: a fetch that fails keeps the later ones
  from being issued, see the counterexample below.)
\<close>

theorem fetchData_sequential:
  "\<exists>es. fetchData B = es @ [SetDashboardLoading False] \<and>
     SetDashboardLoading False \<notin> set es \<and>
     filter isRequest es =
       (if isl (summary_response B) then [AxiosGet ''/attendance/summary'']
        else if isl (attendance_response B)
        then [AxiosGet ''/attendance/summary'', AxiosGet ''/attendance'']
        else [AxiosGet ''/attendance/summary'', AxiosGet ''/attendance'', AxiosGet ''/subjects''])"
  by (cases "summary_response B"; cases "attendance_response B"; cases "subjects_response B")
     (simp_all add: fetchData_def)

theorem fetchData_sequential_witness:
  "(\<exists>es. fetchData sampleBackend = es @ [SetDashboardLoading False] \<and>
     SetDashboardLoading False \<notin> set es \<and>
     filter isRequest es =
       [AxiosGet ''/attendance/summary'', AxiosGet ''/attendance'', AxiosGet ''/subjects'']) \<and>
   (\<exists>es. fetchData (sampleBackend\<lparr>attendance_response := Inl AxiosError\<rparr>) =
       es @ [SetDashboardLoading False] \<and>
     SetDashboardLoading False \<notin> set es \<and>
     filter isRequest es = [AxiosGet ''/attendance/summary'', AxiosGet ''/attendance''])"
  using fetchData_sequential [of sampleBackend]
    fetchData_sequential [of "sampleBackend\<lparr>attendance_response := Inl AxiosError\<rparr>"]
  by (simp add: sampleBackend_def)

theorem fetchData_summary_failure_counterexample:
  "fetchData (sampleBackend\<lparr>summary_response := Inl AxiosError\<rparr>) =
     [AxiosGet ''/attendance/summary'', ConsoleError ''Error fetching data:'',
      SetDashboardLoading False] \<and>
   AxiosGet ''/attendance'' \<notin> set (fetchData (sampleBackend\<lparr>summary_response := Inl AxiosError\<rparr>)) \<and>
   AxiosGet ''/subjects'' \<notin> set (fetchData (sampleBackend\<lparr>summary_response := Inl AxiosError\<rparr>))"
  by (simp add: fetchData_def sampleBackend_def)

section \<open>Properties of the session and the route guard\<close>

text \<open>
  C5. When the login request succeeds and the fetch of the current user that follows it
  fails, \<open>login\<close> returns \<open>true\<close> and the session is left with
  \<open>isAuthenticated = false\<close> and no user.
\<close>

theorem login_fetch_failure_fail_closed:
  assumes "login_response B = Inr access_token" and "me_response B = Inl e"
  shows "snd (login B) = True \<and>
         isAuthenticated (run (fst (login B)) s) = False \<and>
         user (run (fst (login B)) s) = None"
  using assms by (simp add: login_def fetchUser_def run_def)

theorem login_fetch_failure_fail_closed_witness:
  "login_response (sampleBackend\<lparr>me_response := Inl AxiosError\<rparr>) = Inr ''jwt'' \<and>
   me_response (sampleBackend\<lparr>me_response := Inl AxiosError\<rparr>) = Inl AxiosError \<and>
   snd (login (sampleBackend\<lparr>me_response := Inl AxiosError\<rparr>)) = True \<and>
   isAuthenticated (run (fst (login (sampleBackend\<lparr>me_response := Inl AxiosError\<rparr>)))
                      (initialSession None)) = False \<and>
   user (run (fst (login (sampleBackend\<lparr>me_response := Inl AxiosError\<rparr>)))
           (initialSession None)) = None"
proof -
  let ?B = "sampleBackend\<lparr>me_response := Inl AxiosError\<rparr>"
  have h1: "login_response ?B = Inr ''jwt''"
    by (simp add: sampleBackend_def)
  have h2: "me_response ?B = Inl AxiosError"
    by simp
  show ?thesis
    using h1 h2 login_fetch_failure_fail_closed [OF h1 h2, of "initialSession None"] by simp
qed

text \<open>
  C6. While the session is loading the route guard renders the loading view and issues no
  redirect, whatever \<open>isAuthenticated\<close> is; once loading is over it redirects to
  \<open>/login\<close> when the session is not authenticated and renders the wrapped view when it
  is.
\<close>

theorem ProtectedRoute_guard:
  "(loading s \<longrightarrow> ProtectedRoute s = (LoadingView, [])) \<and>
   (\<not> loading s \<and> \<not> isAuthenticated s \<longrightarrow> ProtectedRoute s = (Null, [Navigate ''/login''])) \<and>
   (\<not> loading s \<and> isAuthenticated s \<longrightarrow> ProtectedRoute s = (Children, []))"
  by (simp add: ProtectedRoute_def)

theorem ProtectedRoute_guard_witness:
  "ProtectedRoute \<lparr>token = Some ''jwt'', isAuthenticated = False, user = None, loading = True\<rparr>
     = (LoadingView, []) \<and>
   ProtectedRoute \<lparr>token = Some ''jwt'', isAuthenticated = True, user = None, loading = True\<rparr>
     = (LoadingView, []) \<and>
   ProtectedRoute \<lparr>token = None, isAuthenticated = False, user = None, loading = False\<rparr>
     = (Null, [Navigate ''/login'']) \<and>
   ProtectedRoute \<lparr>token = Some ''jwt'', isAuthenticated = True, user = Some ''alice'', loading = False\<rparr>
     = (Children, [])"
  using ProtectedRoute_guard [of "\<lparr>token = Some ''jwt'', isAuthenticated = False, user = None, loading = True\<rparr>"]
    ProtectedRoute_guard [of "\<lparr>token = Some ''jwt'', isAuthenticated = True, user = None, loading = True\<rparr>"]
    ProtectedRoute_guard [of "\<lparr>token = None, isAuthenticated = False, user = None, loading = False\<rparr>"]
    ProtectedRoute_guard [of "\<lparr>token = Some ''jwt'', isAuthenticated = True, user = Some ''alice'', loading = False\<rparr>"]
  by simp

lemma fetchUser_loading:
  "hd (fetchUser B) = AxiosGet ''/me'' \<and> last (fetchUser B) = SetLoading False \<and>
   (\<forall>n < length (fetchUser B). loading s \<longrightarrow> loading (run (take n (fetchUser B)) s)) \<and>
   \<not> loading (run (fetchUser B) s)"
  by (cases "me_response B")
     (auto simp add: fetchUser_def run_def less_Suc_eq take_Cons')

text \<open>
  C7. At startup, with no persisted token the session resolves to \<open>loading = false\<close> and
  \<open>isAuthenticated = false\<close> without any request; with a persisted token that is not
  the empty string the current user is fetched first, and \<open>loading\<close> stays \<open>true\<close>
  until the last effect of that fetch, whether it succeeds or fails. (An empty string
  persisted as token counts as no token, see the counterexample below.)
\<close>

theorem useAuth_mount_startup:
  "(stored = None \<longrightarrow>
      filter isRequest (useAuth_mount B (initialSession stored)) = [] \<and>
      loading (run (useAuth_mount B (initialSession stored)) (initialSession stored)) = False \<and>
      isAuthenticated (run (useAuth_mount B (initialSession stored)) (initialSession stored)) = False) \<and>
   (\<forall>t. stored = Some t \<and> t \<noteq> [] \<longrightarrow>
      hd (useAuth_mount B (initialSession stored)) = AxiosGet ''/me'' \<and>
      last (useAuth_mount B (initialSession stored)) = SetLoading False \<and>
      (\<forall>n < length (useAuth_mount B (initialSession stored)).
         loading (run (take n (useAuth_mount B (initialSession stored))) (initialSession stored))) \<and>
      \<not> loading (run (useAuth_mount B (initialSession stored)) (initialSession stored)))"
proof -
  have "loading (initialSession stored)"
    by (simp add: initialSession_def)
  then show ?thesis
    using fetchUser_loading [of B "initialSession stored"]
    by (auto simp add: useAuth_mount_def initialSession_def run_def)
qed

theorem useAuth_mount_startup_witness:
  "useAuth_mount sampleBackend (initialSession None) = [SetLoading False] \<and>
   run (useAuth_mount sampleBackend (initialSession None)) (initialSession None) =
     \<lparr>token = None, isAuthenticated = False, user = None, loading = False\<rparr> \<and>
   useAuth_mount (sampleBackend\<lparr>me_response := Inl AxiosError\<rparr>) (initialSession (Some ''jwt'')) =
     [AxiosGet ''/me'', ConsoleError ''Error fetching user:'', SetIsAuthenticated False,
      SetUser None, SetLoading False] \<and>
   loading (run (take 4 (useAuth_mount (sampleBackend\<lparr>me_response := Inl AxiosError\<rparr>)
                           (initialSession (Some ''jwt''))))
              (initialSession (Some ''jwt''))) \<and>
   \<not> loading (run (useAuth_mount (sampleBackend\<lparr>me_response := Inl AxiosError\<rparr>)
                           (initialSession (Some ''jwt'')))
              (initialSession (Some ''jwt'')))"
proof -
  let ?B = "sampleBackend\<lparr>me_response := Inl AxiosError\<rparr>"
  have e: "useAuth_mount ?B (initialSession (Some ''jwt'')) =
     [AxiosGet ''/me'', ConsoleError ''Error fetching user:'', SetIsAuthenticated False,
      SetUser None, SetLoading False]"
    by (simp add: useAuth_mount_def initialSession_def fetchUser_def)
  have n: "(4::nat) < length (useAuth_mount ?B (initialSession (Some ''jwt'')))"
    by (simp add: e)
  have "loading (run (take 4 (useAuth_mount ?B (initialSession (Some ''jwt''))))
              (initialSession (Some ''jwt'')))"
    using useAuth_mount_startup [of "Some ''jwt''" ?B] n by blast
  moreover have "\<not> loading (run (useAuth_mount ?B (initialSession (Some ''jwt'')))
              (initialSession (Some ''jwt'')))"
    using useAuth_mount_startup [of "Some ''jwt''" ?B] by blast
  moreover have "useAuth_mount sampleBackend (initialSession None) = [SetLoading False]"
    by (simp add: useAuth_mount_def initialSession_def)
  moreover have "run [SetLoading False] (initialSession None) =
     \<lparr>token = None, isAuthenticated = False, user = None, loading = False\<rparr>"
    by (simp add: run_def initialSession_def)
  ultimately show ?thesis using e by simp
qed

theorem useAuth_mount_empty_token_counterexample:
  "token (initialSession (Some '''')) = Some '''' \<and>
   useAuth_mount sampleBackend (initialSession (Some '''')) = [SetLoading False] \<and>
   AxiosGet ''/me'' \<notin> set (useAuth_mount sampleBackend (initialSession (Some '''')))"
  by (simp add: useAuth_mount_def initialSession_def)

end
